theory Spec2Isabelle
  imports Main "HOL-Library.Word" "HOL-Library.Sublist"
begin

unbundle bit_operations_syntax

section \<open>Library primitives used by sidechain.cpp\<close>

text \<open>
  The functions of \<^verbatim>\<open>sidechain.cpp\<close> call into the C++ standard library
  (\<^verbatim>\<open>std::string\<close>, \<^verbatim>\<open>std::stoul\<close>, \<^verbatim>\<open>std::to_string\<close>,
  \<^verbatim>\<open>std::remove_if\<close>) and into helpers of the surrounding code base
  (\<^verbatim>\<open>CSHA256\<close>, \<^verbatim>\<open>HexStr\<close>). They are modelled here with the behaviour
  their specifications fix. Integer widths are those of an LP64 platform:
  \<^verbatim>\<open>size_t\<close> and \<^verbatim>\<open>unsigned long\<close> have 64 bits, \<^verbatim>\<open>unsigned int\<close> has 32.
  Numbers are natural numbers and every wrap-around is written out.
\<close>

type_synonym byte = "8 word"
type_synonym u32 = "32 word"

datatype exn = invalid_argument | out_of_range | ios_base_failure

subsection \<open>Integer conversions\<close>

definition size_t :: "nat \<Rightarrow> nat" where
  "size_t n = n mod 2 ^ 64"

definition unsigned_int :: "nat \<Rightarrow> nat" where
  "unsigned_int n = n mod 2 ^ 32"

definition npos :: nat where
  "npos = 2 ^ 64 - 1"

definition ULONG_MAX :: nat where
  "ULONG_MAX = 2 ^ 64 - 1"

subsection \<open>std::string\<close>

fun index_of :: "char \<Rightarrow> string \<Rightarrow> nat option" where
  "index_of c [] = None"
| "index_of c (x # xs) = (if x = c then Some 0 else map_option Suc (index_of c xs))"

text \<open>\<^verbatim>\<open>s.find_first_of("_")\<close>: the position of the first occurrence, or \<^verbatim>\<open>npos\<close>.\<close>

definition find_first_of :: "string \<Rightarrow> char \<Rightarrow> nat" where
  "find_first_of s c = (case index_of c s of None \<Rightarrow> npos | Some i \<Rightarrow> i)"

text \<open>\<^verbatim>\<open>s.find_last_of("_")\<close>: the position of the last occurrence, or \<^verbatim>\<open>npos\<close>.\<close>

definition find_last_of :: "string \<Rightarrow> char \<Rightarrow> nat" where
  "find_last_of s c = (case index_of c (rev s) of None \<Rightarrow> npos | Some i \<Rightarrow> length s - 1 - i)"

text \<open>
  \<^verbatim>\<open>s.substr(pos, n)\<close> throws \<^verbatim>\<open>std::out_of_range\<close> when \<^verbatim>\<open>pos > s.size()\<close>;
  otherwise it returns at most \<^verbatim>\<open>n\<close> characters from \<^verbatim>\<open>pos\<close> on.
\<close>

definition substr :: "string \<Rightarrow> nat \<Rightarrow> nat \<Rightarrow> exn + string" where
  "substr s pos n = (if pos > length s then Inl out_of_range else Inr (take n (drop pos s)))"

subsection \<open>std::to_string and std::stoul\<close>

definition digit_char :: "nat \<Rightarrow> char" where
  "digit_char d = ''0123456789'' ! d"

function to_string :: "nat \<Rightarrow> string" where
  "to_string n = (if n < 10 then [digit_char n] else to_string (n div 10) @ [digit_char (n mod 10)])"
  by pat_completeness auto
termination
  by (relation "measure id") auto

definition isspace :: "char \<Rightarrow> bool" where
  "isspace c \<longleftrightarrow> c \<in> set [CHR '' '', CHR 0x09, CHR 0x0A, CHR 0x0B, CHR 0x0C, CHR 0x0D]"

definition isdigit :: "char \<Rightarrow> bool" where
  "isdigit c \<longleftrightarrow> c \<in> set ''0123456789''"

definition digit_val :: "char \<Rightarrow> nat" where
  "digit_val c = of_char c - 48"

definition digits_value :: "string \<Rightarrow> nat" where
  "digits_value ds = foldl (\<lambda>acc c. acc * 10 + digit_val c) 0 ds"

text \<open>
  \<^verbatim>\<open>std::stoul(str)\<close> is \<^verbatim>\<open>strtoul\<close> in base 10: it skips leading white space,
  takes an optional sign and then the longest run of decimal digits, and ignores
  whatever follows. With no digit it throws \<^verbatim>\<open>std::invalid_argument\<close>; with a
  value beyond \<^verbatim>\<open>ULONG_MAX\<close> it throws \<^verbatim>\<open>std::out_of_range\<close>; after a minus
  sign the value is negated as an \<^verbatim>\<open>unsigned long\<close>.
\<close>

definition stoul :: "string \<Rightarrow> exn + nat" where
  "stoul str =
     (let s = dropWhile isspace str;
          neg = (s \<noteq> [] \<and> hd s = CHR ''-'');
          s' = (if s \<noteq> [] \<and> (hd s = CHR ''+'' \<or> hd s = CHR ''-'') then tl s else s);
          ds = takeWhile isdigit s'
      in if ds = [] then Inl invalid_argument
         else if digits_value ds > ULONG_MAX then Inl out_of_range
         else Inr (if neg then (2 ^ 64 - digits_value ds) mod 2 ^ 64 else digits_value ds))"

subsection \<open>CSHA256 and HexStr\<close>

text \<open>
  Modelled from the spec: \<^verbatim>\<open>CSHA256\<close> (crypto/sha256.cpp is not among the sources)
  is the SHA-256 hash the spec names, here as FIPS 180-4 defines it, on 32-bit words.
\<close>

definition Ch :: "u32 \<Rightarrow> u32 \<Rightarrow> u32 \<Rightarrow> u32" where
  "Ch x y z = z XOR (x AND (y XOR z))"

definition Maj :: "u32 \<Rightarrow> u32 \<Rightarrow> u32 \<Rightarrow> u32" where
  "Maj x y z = (x AND y) OR (z AND (x OR y))"

definition Sigma0 :: "u32 \<Rightarrow> u32" where
  "Sigma0 x = word_rotr 2 x XOR word_rotr 13 x XOR word_rotr 22 x"

definition Sigma1 :: "u32 \<Rightarrow> u32" where
  "Sigma1 x = word_rotr 6 x XOR word_rotr 11 x XOR word_rotr 25 x"

definition sigma0 :: "u32 \<Rightarrow> u32" where
  "sigma0 x = word_rotr 7 x XOR word_rotr 18 x XOR drop_bit 3 x"

definition sigma1 :: "u32 \<Rightarrow> u32" where
  "sigma1 x = word_rotr 17 x XOR word_rotr 19 x XOR drop_bit 10 x"

text \<open>
  The round constants, in decimal: \<open>1116352408\<close> is \<^verbatim>\<open>0x428a2f98\<close>, and so on to
  \<open>3329325298\<close>, which is \<^verbatim>\<open>0xc67178f2\<close>.
\<close>

definition K256 :: "u32 list" where
  "K256 =
    [
     1116352408, 1899447441, 3049323471, 3921009573,
     961987163, 1508970993, 2453635748, 2870763221,
     3624381080, 310598401, 607225278, 1426881987,
     1925078388, 2162078206, 2614888103, 3248222580,
     3835390401, 4022224774, 264347078, 604807628,
     770255983, 1249150122, 1555081692, 1996064986,
     2554220882, 2821834349, 2952996808, 3210313671,
     3336571891, 3584528711, 113926993, 338241895,
     666307205, 773529912, 1294757372, 1396182291,
     1695183700, 1986661051, 2177026350, 2456956037,
     2730485921, 2820302411, 3259730800, 3345764771,
     3516065817, 3600352804, 4094571909, 275423344,
     430227734, 506948616, 659060556, 883997877,
     958139571, 1322822218, 1537002063, 1747873779,
     1955562222, 2024104815, 2227730452, 2361852424,
     2428436474, 2756734187, 3204031479, 3329325298]"

type_synonym sha_state = "u32 \<times> u32 \<times> u32 \<times> u32 \<times> u32 \<times> u32 \<times> u32 \<times> u32"

text \<open>
  The 64 rounds of one block. The message schedule is kept as a window of sixteen
  words: the head is the word of the current round, and each round appends the word
  sixteen rounds ahead.
\<close>

fun rounds :: "u32 list \<Rightarrow> u32 list \<Rightarrow> sha_state \<Rightarrow> sha_state" where
  "rounds [] w s = s"
| "rounds (k # ks) w (a, b, c, d, e, f, g, h) =
     (let t1 = h + Sigma1 e + Ch e f g + k + w ! 0;
          t2 = Sigma0 a + Maj a b c;
          wn = sigma1 (w ! 14) + w ! 9 + sigma0 (w ! 1) + w ! 0
      in rounds ks (tl w @ [wn]) (t1 + t2, a, b, c, d + t1, e, f, g))"

fun ReadBE32 :: "byte list \<Rightarrow> u32 list" where
  "ReadBE32 (b0 # b1 # b2 # b3 # bs) =
     (push_bit 24 (ucast b0) OR push_bit 16 (ucast b1) OR push_bit 8 (ucast b2) OR ucast b3)
       # ReadBE32 bs"
| "ReadBE32 _ = []"

definition Transform :: "sha_state \<Rightarrow> byte list \<Rightarrow> sha_state" where
  "Transform s chunk =
     (case s of (a, b, c, d, e, f, g, h) \<Rightarrow>
        (case rounds K256 (ReadBE32 chunk) s of (a', b', c', d', e', f', g', h') \<Rightarrow>
           (a + a', b + b', c + c', d + d', e + e', f + f', g + g', h + h')))"

function blocks :: "sha_state \<Rightarrow> byte list \<Rightarrow> sha_state" where
  "blocks s bs = (if length bs < 64 then s else blocks (Transform s (take 64 bs)) (drop 64 bs))"
  by pat_completeness auto
termination
  by (relation "measure (\<lambda>(s, bs). length bs)") auto

definition sha_init :: sha_state where
  "sha_init = (0x6a09e667, 0xbb67ae85, 0x3c6ef372, 0xa54ff53a,
               0x510e527f, 0x9b05688c, 0x1f83d9ab, 0x5be0cd19)"

definition WriteBE32 :: "u32 \<Rightarrow> byte list" where
  "WriteBE32 x = [ucast (drop_bit 24 x), ucast (drop_bit 16 x), ucast (drop_bit 8 x), ucast x]"

definition WriteBE64 :: "64 word \<Rightarrow> byte list" where
  "WriteBE64 x =
     [ucast (drop_bit 56 x), ucast (drop_bit 48 x), ucast (drop_bit 40 x), ucast (drop_bit 32 x),
      ucast (drop_bit 24 x), ucast (drop_bit 16 x), ucast (drop_bit 8 x), ucast x]"

definition sha_pad :: "byte list \<Rightarrow> byte list" where
  "sha_pad m = m @ 0x80 # replicate ((119 - length m mod 64) mod 64) 0
                 @ WriteBE64 (push_bit 3 (of_nat (length m)))"

text \<open>
  \<^verbatim>\<open>CSHA256().Write(data, len).Finalize(out)\<close>: the 32 bytes of the digest.
\<close>

definition CSHA256 :: "byte list \<Rightarrow> byte list" where
  "CSHA256 m =
     (case blocks sha_init (sha_pad m) of (a, b, c, d, e, f, g, h) \<Rightarrow>
        WriteBE32 a @ WriteBE32 b @ WriteBE32 c @ WriteBE32 d
          @ WriteBE32 e @ WriteBE32 f @ WriteBE32 g @ WriteBE32 h)"

text \<open>
  Modelled from the spec: \<^verbatim>\<open>HexStr\<close> (utilstrencodings.h is not among the sources)
  writes each byte as two lowercase hexadecimal characters, high nibble first.
\<close>

definition hexmap :: string where
  "hexmap = ''0123456789abcdef''"

definition HexStr :: "byte list \<Rightarrow> string" where
  "HexStr vch = concat (map (\<lambda>b. [hexmap ! unat (drop_bit 4 b), hexmap ! unat (b AND 15)]) vch)"

text \<open>The bytes of a string, as \<^verbatim>\<open>(unsigned char*)&str[0]\<close> reads them.\<close>

definition bytes_of :: "string \<Rightarrow> byte list" where
  "bytes_of s = map of_char s"

section \<open>The deposit address codec\<close>

text \<open>
  \<^verbatim>\<open>GenerateDepositAddress\<close>. The constant \<^verbatim>\<open>THIS_SIDECHAIN\<close> is declared in
  sidechain.h, which is not among the sources; it is a parameter here.
  \<^verbatim>\<open>strHash.substr(0, 6)\<close> starts at position 0 and so cannot throw.
\<close>

definition GenerateDepositAddress :: "nat \<Rightarrow> string \<Rightarrow> string" where
  "GenerateDepositAddress THIS_SIDECHAIN strDestIn =
     (let strDepositAddress = ''s'' @ to_string THIS_SIDECHAIN @ ''_'' @ strDestIn @ ''_'';
          vch = CSHA256 (bytes_of strDepositAddress);
          strHash = HexStr vch
      in strDepositAddress @ take 6 strHash)"

text \<open>
  \<^verbatim>\<open>ParseDepositAddress\<close> returns a \<^verbatim>\<open>bool\<close> and writes through two reference
  parameters. The model takes the initial contents of \<^verbatim>\<open>strAddressOut\<close> and
  \<^verbatim>\<open>nSidechainOut\<close> and returns the returned flag with their final contents;
  \<open>Inl\<close> is an exception that leaves the function. \<^verbatim>\<open>delim1\<close> and \<^verbatim>\<open>delim2\<close>
  are \<^verbatim>\<open>unsigned int\<close>: the \<^verbatim>\<open>size_t\<close> results of the searches are narrowed,
  and their arithmetic wraps at 32 bits. The exception of \<^verbatim>\<open>std::stoul\<close> is
  caught by \<^verbatim>\<open>catch (...)\<close>; its \<^verbatim>\<open>unsigned long\<close> result is narrowed to
  \<^verbatim>\<open>unsigned int\<close> by the assignment to \<^verbatim>\<open>nSidechainOut\<close>.
\<close>

definition ParseDepositAddress :: "string \<Rightarrow> string \<Rightarrow> nat \<Rightarrow> exn + (bool \<times> string \<times> nat)" where
  "ParseDepositAddress strAddressIn strAddressOut nSidechainOut =
     (if strAddressIn = [] then Inr (False, strAddressOut, nSidechainOut)
      else if hd strAddressIn \<noteq> CHR ''s'' then Inr (False, strAddressOut, nSidechainOut)
      else
        let delim1 = unsigned_int (size_t (find_first_of strAddressIn CHR ''_'' + 1));
            delim2 = unsigned_int (find_last_of strAddressIn CHR ''_'')
        in
        if delim1 = npos \<or> delim2 = npos then Inr (False, strAddressOut, nSidechainOut)
        else if delim1 \<ge> length strAddressIn \<or> unsigned_int (delim2 + 1) \<ge> length strAddressIn
          then Inr (False, strAddressOut, nSidechainOut)
        else
          case substr strAddressIn 1 delim1 of Inl e \<Rightarrow> Inl e | Inr strSidechain \<Rightarrow>
          if strSidechain = [] then Inr (False, strAddressOut, nSidechainOut)
          else
            case stoul strSidechain of
              Inl e \<Rightarrow> Inr (False, strAddressOut, nSidechainOut)
            | Inr v \<Rightarrow>
          let nSidechainOut = unsigned_int v in
          if nSidechainOut > 255 then Inr (False, strAddressOut, nSidechainOut)
          else
            case substr strAddressIn delim1 (unsigned_int (delim2 + 2 ^ 32 - delim1)) of
              Inl e \<Rightarrow> Inl e | Inr strAddressOut \<Rightarrow>
          if strAddressOut = [] then Inr (False, strAddressOut, nSidechainOut)
          else
            case substr strAddressIn 0 (unsigned_int (delim2 + 1)) of
              Inl e \<Rightarrow> Inl e | Inr strNoCheck \<Rightarrow>
          if strNoCheck = [] then Inr (False, strAddressOut, nSidechainOut)
          else
            let vch = CSHA256 (bytes_of strNoCheck);
                strHash = HexStr vch
            in
            if length strHash \<noteq> 64 then Inr (False, strAddressOut, nSidechainOut)
            else
              case substr strAddressIn (unsigned_int (delim2 + 1)) (length strAddressIn) of
                Inl e \<Rightarrow> Inl e | Inr strCheck \<Rightarrow>
              if length strCheck \<noteq> 6 then Inr (False, strAddressOut, nSidechainOut)
              else if strCheck \<noteq> take 6 strHash then Inr (False, strAddressOut, nSidechainOut)
              else Inr (True, strAddressOut, nSidechainOut))"

text \<open>The function returned \<^verbatim>\<open>false\<close>: it rejected the address, and no exception left it.\<close>

definition returns_false :: "exn + (bool \<times> string \<times> nat) \<Rightarrow> bool" where
  "returns_false r = (case r of Inl e \<Rightarrow> False | Inr (b, out, n) \<Rightarrow> \<not> b)"



text \<open>
  The values of \<^verbatim>\<open>delim1\<close> and \<^verbatim>\<open>delim2\<close> in \<^verbatim>\<open>ParseDepositAddress\<close>, as functions
  of the address.
\<close>

definition delim1 :: "string \<Rightarrow> nat" where
  "delim1 a = unsigned_int (size_t (find_first_of a CHR ''_'' + 1))"

definition delim2 :: "string \<Rightarrow> nat" where
  "delim2 a = unsigned_int (find_last_of a CHR ''_'')"

text \<open>
  The address \<open>a\<close> with the character at position \<open>i\<close> of its final six replaced
  by \<open>c\<close>.
\<close>

definition tamper :: "string \<Rightarrow> nat \<Rightarrow> char \<Rightarrow> string" where
  "tamper a i c = a[length a - 6 + i := c]"

section \<open>The sidechain objects\<close>

text \<open>
  Modelled from the spec: the classes \<^verbatim>\<open>SidechainObj\<close>, \<^verbatim>\<open>SidechainWT\<close>,
  \<^verbatim>\<open>SidechainWTPrime\<close> and \<^verbatim>\<open>SidechainDeposit\<close> are declared in sidechain.h,
  which is not among the sources. Their fields are those that sidechain.cpp reads,
  with the types and in the order of the spec's data model. The three derived classes
  extend \<^verbatim>\<open>SidechainObj\<close>, which holds the discriminant \<^verbatim>\<open>sidechainop\<close>. The
  transaction type \<open>'tx\<close> is external.
\<close>

record SidechainObj =
  sidechainop :: byte

record SidechainWT = SidechainObj +
  nSidechain :: byte
  strDestination :: string
  amount :: "64 word"
  mainchainFee :: "64 word"
  status :: byte
  hashBlindWTX :: "256 word"

record 'tx SidechainWTPrime = SidechainObj +
  nSidechain_wtprime :: byte
  wtPrime :: 'tx
  nHeight :: "32 word"
  status_wtprime :: byte

record 'tx SidechainDeposit = SidechainObj +
  nSidechain_deposit :: byte
  strDest :: string
  amtUserPayout :: "64 word"
  dtx :: 'tx
  nBurnIndex :: "32 word"
  nTx :: "32 word"
  hashMainchainBlock :: "256 word"

text \<open>
  An object behind a \<^verbatim>\<open>SidechainObj*\<close>: its class is one of the four. The field
  \<^verbatim>\<open>sidechainop\<close> is public, so it need not agree with the class.
\<close>

datatype 'tx sidechain_obj =
  Obj SidechainObj
| WT SidechainWT
| WTPrime "'tx SidechainWTPrime"
| Deposit "'tx SidechainDeposit"

fun op_of :: "'tx sidechain_obj \<Rightarrow> byte" where
  "op_of (Obj x) = sidechainop x"
| "op_of (WT x) = sidechainop x"
| "op_of (WTPrime x) = sidechainop x"
| "op_of (Deposit x) = sidechainop x"

text \<open>
  What sidechain.cpp takes from headers that are not among the sources: the three
  discriminant constants, the status constant \<^verbatim>\<open>WT_UNSPENT\<close>, the script opcode
  \<^verbatim>\<open>OP_RETURN\<close>, the \<^verbatim>\<open>Serialize\<close> and \<^verbatim>\<open>Unserialize\<close> methods of the three
  classes, and the hash behind \<^verbatim>\<open>SerializeHash\<close>. The functions below take them
  as a parameter.
\<close>

record 'tx sidechain_h =
  DB_SIDECHAIN_WT_OP :: byte
  DB_SIDECHAIN_WTPRIME_OP :: byte
  DB_SIDECHAIN_DEPOSIT_OP :: byte
  WT_UNSPENT :: byte
  OP_RETURN :: byte
  Serialize_WT :: "SidechainWT \<Rightarrow> byte list"
  Serialize_WTPrime :: "'tx SidechainWTPrime \<Rightarrow> byte list"
  Serialize_Deposit :: "'tx SidechainDeposit \<Rightarrow> byte list"
  Unserialize_WT :: "byte list \<Rightarrow> exn + SidechainWT"
  Unserialize_WTPrime :: "byte list \<Rightarrow> exn + 'tx SidechainWTPrime"
  Unserialize_Deposit :: "byte list \<Rightarrow> exn + 'tx SidechainDeposit"
  Hash :: "byte list \<Rightarrow> 256 word"

text \<open>
  Modelled from the spec: the default constructor of \<^verbatim>\<open>uint256\<close> (uint256.h is not
  among the sources) gives the default digest, which is all zero.
\<close>

definition uint256_default :: "256 word" where
  "uint256_default = 0"

text \<open>
  \<^verbatim>\<open>SidechainObj::GetHash\<close>. \<^verbatim>\<open>uint256 ret\<close> starts as the default digest. Each
  branch casts \<^verbatim>\<open>this\<close> to the class that the discriminant names; on an object of
  another class the cast has undefined behaviour, which is \<open>None\<close> here.
\<close>

definition GetHash :: "'tx sidechain_h \<Rightarrow> 'tx sidechain_obj \<Rightarrow> 256 word option" where
  "GetHash h this =
     (let ret = uint256_default in
      if op_of this = DB_SIDECHAIN_WT_OP h then
        (case this of WT x \<Rightarrow> Some (Hash h (Serialize_WT h x)) | _ \<Rightarrow> None)
      else if op_of this = DB_SIDECHAIN_WTPRIME_OP h then
        (case this of WTPrime x \<Rightarrow> Some (Hash h (Serialize_WTPrime h x)) | _ \<Rightarrow> None)
      else if op_of this = DB_SIDECHAIN_DEPOSIT_OP h then
        (case this of Deposit x \<Rightarrow> Some (Hash h (Serialize_Deposit h x)) | _ \<Rightarrow> None)
      else Some ret)"

text \<open>
  \<^verbatim>\<open>ParseSidechainObj\<close>. \<open>Inr None\<close> is the \<^verbatim>\<open>NULL\<close> result; \<open>Inl\<close> is an
  exception of \<^verbatim>\<open>Unserialize\<close>, which the function does not catch. The stream
  is built over the whole vector, discriminant included.
\<close>

definition ParseSidechainObj ::
    "'tx sidechain_h \<Rightarrow> byte list \<Rightarrow> exn + 'tx sidechain_obj option" where
  "ParseSidechainObj h vch =
     (if length vch = 0 then Inr None
      else
        let vch0 = hd vch; ds = vch in
        if vch0 = DB_SIDECHAIN_WT_OP h then
          (case Unserialize_WT h ds of Inl e \<Rightarrow> Inl e | Inr obj \<Rightarrow> Inr (Some (WT obj)))
        else if vch0 = DB_SIDECHAIN_WTPRIME_OP h then
          (case Unserialize_WTPrime h ds of Inl e \<Rightarrow> Inl e | Inr obj \<Rightarrow> Inr (Some (WTPrime obj)))
        else if vch0 = DB_SIDECHAIN_DEPOSIT_OP h then
          (case Unserialize_Deposit h ds of Inl e \<Rightarrow> Inl e | Inr obj \<Rightarrow> Inr (Some (Deposit obj)))
        else Inr None)"

text \<open>
  \<^verbatim>\<open>SidechainObj::GetScript\<close>: the serialization of the object, which stays empty
  when the discriminant is none of the three, behind the five header bytes.
\<close>

definition GetScript :: "'tx sidechain_h \<Rightarrow> 'tx sidechain_obj \<Rightarrow> byte list option" where
  "GetScript h this =
     (let ds =
        (if op_of this = DB_SIDECHAIN_WT_OP h then
           (case this of WT x \<Rightarrow> Some (Serialize_WT h x) | _ \<Rightarrow> None)
         else if op_of this = DB_SIDECHAIN_WTPRIME_OP h then
           (case this of WTPrime x \<Rightarrow> Some (Serialize_WTPrime h x) | _ \<Rightarrow> None)
         else if op_of this = DB_SIDECHAIN_DEPOSIT_OP h then
           (case this of Deposit x \<Rightarrow> Some (Serialize_Deposit h x) | _ \<Rightarrow> None)
         else Some [])
      in case ds of None \<Rightarrow> None
         | Some vch \<Rightarrow> Some ([OP_RETURN h, 0xAC, 0xDC, 0xF6, 0x6F] @ vch))"

text \<open>
  An object as its constructor leaves it: the discriminant is the constant of
  the class. A bare \<^verbatim>\<open>SidechainObj\<close> is not one of the three variants.
\<close>

fun constructed :: "'tx sidechain_h \<Rightarrow> 'tx sidechain_obj \<Rightarrow> bool" where
  "constructed h (Obj x) = False"
| "constructed h (WT x) = (sidechainop x = DB_SIDECHAIN_WT_OP h)"
| "constructed h (WTPrime x) = (sidechainop x = DB_SIDECHAIN_WTPRIME_OP h)"
| "constructed h (Deposit x) = (sidechainop x = DB_SIDECHAIN_DEPOSIT_OP h)"

fun Serialize :: "'tx sidechain_h \<Rightarrow> 'tx sidechain_obj \<Rightarrow> byte list" where
  "Serialize h (Obj x) = []"
| "Serialize h (WT x) = Serialize_WT h x"
| "Serialize h (WTPrime x) = Serialize_WTPrime h x"
| "Serialize h (Deposit x) = Serialize_Deposit h x"

section \<open>Selection of unspent withdrawals\<close>

text \<open>
  \<^verbatim>\<open>std::remove_if\<close> on a vector, as the standard library writes it: find the first
  element to remove, then move every later element that stays down to the position
  \<^verbatim>\<open>result\<close>. It returns the vector and the new logical end. A moved-from slot is
  never read again, so the model leaves it as it was.
\<close>

definition find_if :: "('a \<Rightarrow> bool) \<Rightarrow> 'a list \<Rightarrow> nat" where
  "find_if pred v = length (takeWhile (\<lambda>x. \<not> pred x) v)"

function remove_if_loop :: "('a \<Rightarrow> bool) \<Rightarrow> 'a list \<Rightarrow> nat \<Rightarrow> nat \<Rightarrow> 'a list \<times> nat" where
  "remove_if_loop pred v result first =
     (if first < length v then
        (if \<not> pred (v ! first)
         then remove_if_loop pred (v[result := v ! first]) (Suc result) (Suc first)
         else remove_if_loop pred v result (Suc first))
      else (v, result))"
  by pat_completeness auto
termination
  by (relation "measure (\<lambda>(pred, v, result, first). length v - first)") auto

definition remove_if :: "('a \<Rightarrow> bool) \<Rightarrow> 'a list \<Rightarrow> 'a list \<times> nat" where
  "remove_if pred v =
     (let first = find_if pred v in
      if first = length v then (v, first) else remove_if_loop pred v first (Suc first))"

text \<open>\<^verbatim>\<open>v.erase(it, v.end())\<close> cuts the vector at \<^verbatim>\<open>it\<close>.\<close>

definition erase_to_end :: "'a list \<Rightarrow> nat \<Rightarrow> 'a list" where
  "erase_to_end v it = take it v"

text \<open>\<^verbatim>\<open>SelectUnspentWT\<close> changes the caller's vector; the model returns its new contents.\<close>

definition SelectUnspentWT :: "'tx sidechain_h \<Rightarrow> SidechainWT list \<Rightarrow> SidechainWT list" where
  "SelectUnspentWT h vWT =
     (case remove_if (\<lambda>wt. status wt \<noteq> WT_UNSPENT h) vWT of
        (v, new_end) \<Rightarrow> erase_to_end v new_end)"

section \<open>Serialization of the objects\<close>

text \<open>
  Modelled from the spec: the \<^verbatim>\<open>Serialize\<close> and \<^verbatim>\<open>Unserialize\<close> methods of the
  three classes are declared in sidechain.h, which is not among the sources. The spec
  has the discriminant byte first and then the fields in declaration order, unsigned
  integers in a fixed width, a string as its length and then its bytes, a digest as
  32 bytes, and a transaction through the external transaction codec. Here integers
  and digests are little-endian in their width, and the length of a string is written
  as a compact size (one byte below 253, else a marker byte and 2, 4 or 8 bytes).
\<close>

fun le_bytes :: "nat \<Rightarrow> nat \<Rightarrow> byte list" where
  "le_bytes 0 n = []"
| "le_bytes (Suc k) n = of_nat (n mod 256) # le_bytes k (n div 256)"

fun le_value :: "byte list \<Rightarrow> nat" where
  "le_value [] = 0"
| "le_value (b # bs) = unat b + 256 * le_value bs"

text \<open>
  A reader takes what it needs from the front of the stream and returns the rest;
  reading past the end throws.
\<close>

type_synonym 'a reader = "byte list \<Rightarrow> exn + ('a \<times> byte list)"

definition read_bytes :: "nat \<Rightarrow> (byte list) reader" where
  "read_bytes k ds = (if length ds < k then Inl ios_base_failure else Inr (take k ds, drop k ds))"

definition bind_reader :: "'a reader \<Rightarrow> ('a \<Rightarrow> 'b reader) \<Rightarrow> 'b reader" where
  "bind_reader r f ds = (case r ds of Inl e \<Rightarrow> Inl e | Inr (x, ds') \<Rightarrow> f x ds')"

definition return_reader :: "'a \<Rightarrow> 'a reader" where
  "return_reader x ds = Inr (x, ds)"

definition ser_word :: "nat \<Rightarrow> 'a::len word \<Rightarrow> byte list" where
  "ser_word k w = le_bytes k (unat w)"

definition unser_word :: "nat \<Rightarrow> ('a::len word) reader" where
  "unser_word k = bind_reader (read_bytes k) (\<lambda>bs. return_reader (of_nat (le_value bs)))"

definition WriteCompactSize :: "nat \<Rightarrow> byte list" where
  "WriteCompactSize n =
     (if n < 253 then [of_nat n]
      else if n \<le> 0xFFFF then 253 # le_bytes 2 n
      else if n \<le> 0xFFFFFFFF then 254 # le_bytes 4 n
      else 255 # le_bytes 8 n)"

definition ReadCompactSize :: "nat reader" where
  "ReadCompactSize =
     bind_reader (read_bytes 1) (\<lambda>b.
       if le_value b < 253 then return_reader (le_value b)
       else bind_reader (read_bytes (if le_value b = 253 then 2 else if le_value b = 254 then 4 else 8))
              (\<lambda>bs. return_reader (le_value bs)))"

definition ser_string :: "string \<Rightarrow> byte list" where
  "ser_string s = WriteCompactSize (length s) @ bytes_of s"

definition unser_string :: "string reader" where
  "unser_string =
     bind_reader ReadCompactSize (\<lambda>n.
       bind_reader (read_bytes n) (\<lambda>bs. return_reader (map (\<lambda>b. char_of (unat b)) bs)))"

definition spec_Serialize_WT :: "SidechainWT \<Rightarrow> byte list" where
  "spec_Serialize_WT x =
     ser_word 1 (sidechainop x) @ ser_word 1 (nSidechain x) @ ser_string (strDestination x)
       @ ser_word 8 (amount x) @ ser_word 8 (mainchainFee x) @ ser_word 1 (status x)
       @ ser_word 32 (hashBlindWTX x)"

definition spec_Unserialize_WT :: "byte list \<Rightarrow> exn + SidechainWT" where
  "spec_Unserialize_WT ds =
     map_sum id fst
      (bind_reader (unser_word 1) (\<lambda>f0.
       bind_reader (unser_word 1) (\<lambda>f1.
       bind_reader unser_string (\<lambda>f2.
       bind_reader (unser_word 8) (\<lambda>f3.
       bind_reader (unser_word 8) (\<lambda>f4.
       bind_reader (unser_word 1) (\<lambda>f5.
       bind_reader (unser_word 32) (\<lambda>f6.
       return_reader
         \<lparr>sidechainop = f0, nSidechain = f1, strDestination = f2, amount = f3,
          mainchainFee = f4, status = f5, hashBlindWTX = f6\<rparr>))))))) ds)"

definition spec_Serialize_WTPrime :: "('tx \<Rightarrow> byte list) \<Rightarrow> 'tx SidechainWTPrime \<Rightarrow> byte list" where
  "spec_Serialize_WTPrime tx_ser x =
     ser_word 1 (sidechainop x) @ ser_word 1 (nSidechain_wtprime x) @ tx_ser (wtPrime x)
       @ ser_word 4 (nHeight x) @ ser_word 1 (status_wtprime x)"

definition spec_Unserialize_WTPrime :: "'tx reader \<Rightarrow> byte list \<Rightarrow> exn + 'tx SidechainWTPrime" where
  "spec_Unserialize_WTPrime tx_unser ds =
     map_sum id fst
      (bind_reader (unser_word 1) (\<lambda>f0.
       bind_reader (unser_word 1) (\<lambda>f1.
       bind_reader tx_unser (\<lambda>f2.
       bind_reader (unser_word 4) (\<lambda>f3.
       bind_reader (unser_word 1) (\<lambda>f4.
       return_reader
         \<lparr>sidechainop = f0, nSidechain_wtprime = f1, wtPrime = f2, nHeight = f3,
          status_wtprime = f4\<rparr>))))) ds)"

definition spec_Serialize_Deposit :: "('tx \<Rightarrow> byte list) \<Rightarrow> 'tx SidechainDeposit \<Rightarrow> byte list" where
  "spec_Serialize_Deposit tx_ser x =
     ser_word 1 (sidechainop x) @ ser_word 1 (nSidechain_deposit x) @ ser_string (strDest x)
       @ ser_word 8 (amtUserPayout x) @ tx_ser (dtx x) @ ser_word 4 (nBurnIndex x)
       @ ser_word 4 (nTx x) @ ser_word 32 (hashMainchainBlock x)"

definition spec_Unserialize_Deposit :: "'tx reader \<Rightarrow> byte list \<Rightarrow> exn + 'tx SidechainDeposit" where
  "spec_Unserialize_Deposit tx_unser ds =
     map_sum id fst
      (bind_reader (unser_word 1) (\<lambda>f0.
       bind_reader (unser_word 1) (\<lambda>f1.
       bind_reader unser_string (\<lambda>f2.
       bind_reader (unser_word 8) (\<lambda>f3.
       bind_reader tx_unser (\<lambda>f4.
       bind_reader (unser_word 4) (\<lambda>f5.
       bind_reader (unser_word 4) (\<lambda>f6.
       bind_reader (unser_word 32) (\<lambda>f7.
       return_reader
         \<lparr>sidechainop = f0, nSidechain_deposit = f1, strDest = f2, amtUserPayout = f3,
          dtx = f4, nBurnIndex = f5, nTx = f6, hashMainchainBlock = f7\<rparr>)))))))) ds)"

text \<open>The declarations \<open>h\<close> with these methods, over a transaction codec.\<close>

definition with_spec_serializers ::
    "('tx \<Rightarrow> byte list) \<Rightarrow> 'tx reader \<Rightarrow> 'tx sidechain_h \<Rightarrow> 'tx sidechain_h" where
  "with_spec_serializers tx_ser tx_unser h =
     h\<lparr>Serialize_WT := spec_Serialize_WT,
       Serialize_WTPrime := spec_Serialize_WTPrime tx_ser,
       Serialize_Deposit := spec_Serialize_Deposit tx_ser,
       Unserialize_WT := spec_Unserialize_WT,
       Unserialize_WTPrime := spec_Unserialize_WTPrime tx_unser,
       Unserialize_Deposit := spec_Unserialize_Deposit tx_unser\<rparr>"

text \<open>The strings of an object have lengths that a compact size can hold.\<close>

fun valid_fields :: "'tx sidechain_obj \<Rightarrow> bool" where
  "valid_fields (Obj x) = True"
| "valid_fields (WT x) = (length (strDestination x) < 2 ^ 64)"
| "valid_fields (WTPrime x) = True"
| "valid_fields (Deposit x) = (length (strDest x) < 2 ^ 64)"

text \<open>
  An instance of the declarations for examples: the discriminants \<^verbatim>\<open>W\<close>, \<^verbatim>\<open>P\<close>
  and \<^verbatim>\<open>D\<close>, the status \<^verbatim>\<open>U\<close>, the opcode \<open>0x6a\<close>, a hash that is constant and
  not zero, and the methods above over a transaction type with one value and an empty
  encoding.
\<close>

definition example_decls :: "unit sidechain_h" where
  "example_decls =
     \<lparr>DB_SIDECHAIN_WT_OP = 0x57, DB_SIDECHAIN_WTPRIME_OP = 0x50, DB_SIDECHAIN_DEPOSIT_OP = 0x44,
      WT_UNSPENT = 0x55, OP_RETURN = 0x6a,
      Serialize_WT = (\<lambda>x. []), Serialize_WTPrime = (\<lambda>x. []), Serialize_Deposit = (\<lambda>x. []),
      Unserialize_WT = (\<lambda>ds. Inl ios_base_failure),
      Unserialize_WTPrime = (\<lambda>ds. Inl ios_base_failure),
      Unserialize_Deposit = (\<lambda>ds. Inl ios_base_failure),
      Hash = (\<lambda>bs. 1)\<rparr>"

definition example_h :: "unit sidechain_h" where
  "example_h = with_spec_serializers (\<lambda>t. []) (return_reader ()) example_decls"

definition example_WT :: SidechainWT where
  "example_WT =
     \<lparr>sidechainop = 0x57, nSidechain = 7, strDestination = ''abc'', amount = 1000,
      mainchainFee = 10, status = 0x55, hashBlindWTX = 0x1234\<rparr>"

definition example_Deposit :: "unit SidechainDeposit" where
  "example_Deposit =
     \<lparr>sidechainop = 0x44, nSidechain_deposit = 7, strDest = ''abc'', amtUserPayout = 5000,
      dtx = (), nBurnIndex = 1, nTx = 2, hashMainchainBlock = 0x5678\<rparr>"


section \<open>Facts about the library primitives\<close>

declare to_string.simps [simp del]
declare blocks.simps [simp del]

lemma index_of_notin: "c \<notin> set s \<Longrightarrow> index_of c s = None"
  by (induction s) auto

lemma index_of_split: "c \<notin> set pre \<Longrightarrow> index_of c (pre @ c # rest) = Some (length pre)"
  by (induction pre) auto

lemma find_first_of_split: "c \<notin> set pre \<Longrightarrow> find_first_of (pre @ c # rest) c = length pre"
  by (simp add: find_first_of_def index_of_split)

lemma find_last_of_split: "c \<notin> set rest \<Longrightarrow> find_last_of (pre @ c # rest) c = length pre"
  using index_of_split [of c "rev rest" "rev pre"] by (simp add: find_last_of_def)

lemma find_first_of_npos: "c \<notin> set s \<Longrightarrow> find_first_of s c = npos"
  by (simp add: find_first_of_def index_of_notin)

lemma find_last_of_npos: "c \<notin> set s \<Longrightarrow> find_last_of s c = npos"
  by (simp add: find_last_of_def index_of_notin)

lemma takeWhile_stop: "\<not> P c \<Longrightarrow> takeWhile P (t @ c # rest) = takeWhile P t"
  by (induction t) auto

lemma stoul_stop:
  assumes "\<not> isspace c" "\<not> isdigit c" "c \<noteq> CHR ''+''" "c \<noteq> CHR ''-''"
  shows "stoul (sub @ c # rest) = stoul sub"
proof (cases "\<forall>x\<in>set sub. isspace x")
  case True
  then have 1: "dropWhile isspace (sub @ c # rest) = c # rest"
    and 2: "dropWhile isspace sub = []"
    using assms by (simp_all add: dropWhile_append2)
  show ?thesis unfolding stoul_def 1 2 using assms by simp
next
  case False
  then obtain x where x: "x \<in> set sub" "\<not> isspace x" by blast
  define s0 where "s0 = dropWhile isspace sub"
  have d: "dropWhile isspace (sub @ c # rest) = s0 @ c # rest"
    using x by (simp add: dropWhile_append1 s0_def)
  have ne: "s0 \<noteq> []" using x by (auto simp: s0_def dropWhile_eq_Nil_conv)
  then obtain y ys where s0: "s0 = y # ys" by (cases s0) auto
  show ?thesis
    unfolding stoul_def d s0_def [symmetric]
    using assms by (simp add: s0 takeWhile_stop Let_def)
qed

lemma digit_cases: "d < 10 \<Longrightarrow> d \<in> {0, 1, 2, 3, 4, 5, 6, 7, 8, 9::nat}"
  by auto

lemma isdigit_digit_char: "d < 10 \<Longrightarrow> isdigit (digit_char d)"
  using digit_cases [of d] by (auto simp: isdigit_def digit_char_def)

lemma digit_val_digit_char: "d < 10 \<Longrightarrow> digit_val (digit_char d) = d"
  using digit_cases [of d] by (auto simp: digit_val_def digit_char_def)

lemma to_string_digits: "\<forall>c\<in>set (to_string n). isdigit c"
proof (induction n rule: to_string.induct)
  case (1 n)
  then show ?case
    by (subst to_string.simps) (auto simp: isdigit_digit_char)
qed

lemma to_string_nonempty: "to_string n \<noteq> []"
  by (subst to_string.simps) simp

lemma digits_value_to_string: "digits_value (to_string n) = n"
proof (induction n rule: to_string.induct)
  case (1 n)
  show ?case
  proof (cases "n < 10")
    case True
    then show ?thesis
      by (subst to_string.simps) (simp add: digits_value_def digit_val_digit_char)
  next
    case False
    with 1 have "digits_value (to_string (n div 10)) = n div 10" by simp
    with False show ?thesis
      by (subst to_string.simps) (simp add: digits_value_def digit_val_digit_char)
  qed
qed

lemma isdigit_not_other:
  "isdigit c \<Longrightarrow> \<not> isspace c \<and> c \<noteq> CHR ''+'' \<and> c \<noteq> CHR ''-'' \<and> c \<noteq> CHR ''_''"
  by (auto simp: isdigit_def isspace_def)

lemma underscore_stops:
  "\<not> isspace CHR ''_''" "\<not> isdigit CHR ''_''"
  by (simp_all add: isdigit_def isspace_def)

lemma stoul_digits:
  assumes "ds \<noteq> []" "\<forall>c\<in>set ds. isdigit c" "digits_value ds \<le> ULONG_MAX"
  shows "stoul ds = Inr (digits_value ds)"
proof -
  obtain y ys where ds: "ds = y # ys" using assms(1) by (cases ds) auto
  have y: "isdigit y" using assms(2) ds by simp
  have 1: "dropWhile isspace ds = ds" using y isdigit_not_other [of y] by (simp add: ds)
  have 2: "takeWhile isdigit ds = ds" using assms(2) by (simp add: takeWhile_eq_all_conv)
  show ?thesis
    unfolding stoul_def 1 using assms(1,3) isdigit_not_other [OF y] 2 by (simp add: ds)
qed

lemma stoul_to_string: "n \<le> ULONG_MAX \<Longrightarrow> stoul (to_string n) = Inr n"
  using stoul_digits [of "to_string n"]
  by (simp add: to_string_nonempty to_string_digits digits_value_to_string)


lemma to_string_no_underscore: "CHR ''_'' \<notin> set (to_string n)"
  using to_string_digits [of n] isdigit_not_other by blast

lemma length_HexStr: "length (HexStr vch) = 2 * length vch"
  by (induction vch) (simp_all add: HexStr_def)

lemma nibble_hi: "unat (drop_bit 4 (b::byte)) < 16"
proof -
  have "unat b < 256" using unsigned_less [of b] by simp
  moreover have "unat (drop_bit 4 b) = unat b div 16"
    by (simp add: drop_bit_eq_div unat_div)
  ultimately show ?thesis by simp
qed

lemma nibble_lo: "unat ((b::byte) AND 15) < 16"
proof -
  have "unat (b AND 15) \<le> unat (15 :: byte)"
    by (rule word_and_le1 [THEN word_le_nat_alt [THEN iffD1]])
  then show ?thesis by simp
qed

lemma length_hexmap: "length hexmap = 16"
  by (simp add: hexmap_def)

lemma hexmap_nth: "i < 16 \<Longrightarrow> hexmap ! i \<in> set hexmap"
  by (rule nth_mem) (simp add: length_hexmap)

lemma set_HexStr: "set (HexStr vch) \<subseteq> set hexmap"
  by (induction vch) (auto simp: HexStr_def nibble_hi nibble_lo hexmap_nth)

lemma length_CSHA256: "length (CSHA256 m) = 32"
  by (simp add: CSHA256_def WriteBE32_def split: prod.splits)

section \<open>Properties of the deposit address codec\<close>

text \<open>
  What \<^verbatim>\<open>ParseDepositAddress\<close> computes on an address that starts with \<^verbatim>\<open>s\<close> and
  contains an underscore: \<open>sub\<close> is the text between the \<^verbatim>\<open>s\<close> and the first
  underscore, \<open>chk\<close> the text after the last one. The address is shorter than
  \<open>2 ^ 32\<close> characters, so that no position is changed by its narrowing to
  \<^verbatim>\<open>unsigned int\<close>.
\<close>

lemma ParseDepositAddress_split:
  assumes a: "strAddressIn = CHR ''s'' # sub @ CHR ''_'' # rest" and sub: "CHR ''_'' \<notin> set sub"
    and p: "strAddressIn = p @ CHR ''_'' # chk" and chk: "CHR ''_'' \<notin> set chk"
    and len: "length strAddressIn < 2 ^ 32"
  shows "ParseDepositAddress strAddressIn out0 n0 =
     (if rest = [] \<or> chk = [] then Inr (False, out0, n0)
      else case stoul sub of
        Inl e \<Rightarrow> Inr (False, out0, n0)
      | Inr v \<Rightarrow>
          if unsigned_int v > 255 then Inr (False, out0, unsigned_int v)
          else
            let out = take (unsigned_int (length p + 2 ^ 32 - (length sub + 2))) rest in
            if out = [] then Inr (False, out, unsigned_int v)
            else if length chk \<noteq> 6 then Inr (False, out, unsigned_int v)
            else if chk \<noteq> take 6 (HexStr (CSHA256 (bytes_of (p @ ''_''))))
              then Inr (False, out, unsigned_int v)
            else Inr (True, out, unsigned_int v))"
proof -
  have f1: "find_first_of strAddressIn CHR ''_'' = length sub + 1"
    using find_first_of_split [of "CHR ''_''" "CHR ''s'' # sub" rest] sub by (simp add: a)
  have f2: "find_last_of strAddressIn CHR ''_'' = length p"
    using find_last_of_split [of "CHR ''_''" chk p] chk by (simp add: p)
  have l1: "length strAddressIn = length sub + 2 + length rest" by (simp add: a)
  have l2: "length strAddressIn = length p + 1 + length chk" by (simp add: p)
  have d1: "unsigned_int (size_t (length sub + 1 + 1)) = Suc (Suc (length sub))"
    using len l1 by (simp add: unsigned_int_def size_t_def)
  have d2: "unsigned_int (length p) = length p" "unsigned_int (Suc (length p)) = Suc (length p)"
    using len l2 by (simp_all add: unsigned_int_def)
  have n1: "Suc (Suc (length sub)) \<noteq> npos" "length p \<noteq> npos"
    using len l1 l2 by (simp_all add: npos_def)
  have g1: "length strAddressIn \<le> Suc (Suc (length sub)) \<longleftrightarrow> rest = []"
    using l1 by auto
  have g2: "length strAddressIn \<le> Suc (length p) \<longleftrightarrow> chk = []"
    using l2 by auto
  have s1: "substr strAddressIn (Suc 0) (Suc (Suc (length sub)))
              = Inr (sub @ CHR ''_'' # take (Suc 0) rest)"
    by (simp add: substr_def a)
  have s2: "substr strAddressIn (Suc (Suc (length sub))) k = Inr (take k rest)" for k
    by (simp add: substr_def a)
  have s3: "substr strAddressIn 0 (Suc (length p)) = Inr (p @ ''_'')"
    by (simp add: substr_def p)
  have s4: "substr strAddressIn (Suc (length p)) k = Inr (take k chk)" for k
    by (simp add: substr_def p)
  have s5: "take (length strAddressIn) chk = chk" using l2 by simp
  have st: "stoul (sub @ CHR ''_'' # take (Suc 0) rest) = stoul sub"
    by (rule stoul_stop) (simp_all add: underscore_stops)
  have h: "length (HexStr (CSHA256 m)) = 64" for m
    by (simp add: length_HexStr length_CSHA256)
  have hd: "strAddressIn \<noteq> []" "hd strAddressIn = CHR ''s''" by (simp_all add: a)
  note defs = ParseDepositAddress_def f1 f2 d1 d2
  note facts = hd n1 g1 g2 d2 s1 st
  show ?thesis
  proof (cases "rest = [] \<or> chk = []")
    case True
    then show ?thesis
      unfolding defs by (simp add: facts Let_def)
  next
    case False
    then have ne: "rest \<noteq> []" "chk \<noteq> []" by simp_all
    show ?thesis
    proof (cases "stoul sub")
      case (Inl e)
      then show ?thesis
        unfolding defs by (simp add: facts ne Let_def)
    next
      case (Inr v)
      show ?thesis
      proof (cases "unsigned_int v > 255")
        case True
        then show ?thesis
          unfolding defs by (simp add: facts ne Inr Let_def)
      next
        case False
        then show ?thesis
          unfolding defs by (simp add: facts ne s2 s3 s4 s5 h Inr Let_def)
      qed
    qed
  qed
qed

lemma length_to_string_255: "n \<le> 255 \<Longrightarrow> length (to_string n) \<le> 3"
  by (subst to_string.simps, subst to_string.simps, subst to_string.simps) auto

lemma underscore_not_hex: "CHR ''_'' \<notin> set (take k (HexStr vch))"
proof
  assume "CHR ''_'' \<in> set (take k (HexStr vch))"
  then have "CHR ''_'' \<in> set hexmap" using set_HexStr [of vch] by (auto dest: in_set_takeD)
  then show False by (simp add: hexmap_def)
qed

lemma length_checksum: "length (take 6 (HexStr (CSHA256 m))) = 6"
  by (simp add: length_HexStr length_CSHA256)

lemma GenerateDepositAddress_eq:
  "GenerateDepositAddress N dest =
     (CHR ''s'' # to_string N @ CHR ''_'' # dest @ ''_'')
       @ take 6 (HexStr (CSHA256 (bytes_of (CHR ''s'' # to_string N @ CHR ''_'' # dest @ ''_''))))"
  by (simp add: GenerateDepositAddress_def Let_def)

text \<open>
  The round trip for an address shorter than \<open>2 ^ 32\<close> characters, whose positions fit
  the \<^verbatim>\<open>unsigned int\<close> variables \<^verbatim>\<open>delim1\<close> and \<^verbatim>\<open>delim2\<close>: for every sidechain
  index in [0,255] and every non-empty destination (underscores allowed), parsing the
  generated address returns \<^verbatim>\<open>true\<close> with that destination and that index.
\<close>

theorem address_round_trip:
  assumes "THIS_SIDECHAIN \<le> 255" and "strDestIn \<noteq> []" and "length strDestIn + 12 < 2 ^ 32"
  shows "ParseDepositAddress (GenerateDepositAddress THIS_SIDECHAIN strDestIn) out0 n0 =
           Inr (True, strDestIn, THIS_SIDECHAIN)"
proof -
  define sub where "sub = to_string THIS_SIDECHAIN"
  define P where "P = CHR ''s'' # sub @ CHR ''_'' # strDestIn @ ''_''"
  define chk where "chk = take 6 (HexStr (CSHA256 (bytes_of P)))"
  define a where "a = GenerateDepositAddress THIS_SIDECHAIN strDestIn"
  have a1: "a = CHR ''s'' # sub @ CHR ''_'' # (strDestIn @ CHR ''_'' # chk)"
    by (simp add: a_def GenerateDepositAddress_eq sub_def chk_def P_def)
  have a2: "a = (CHR ''s'' # sub @ CHR ''_'' # strDestIn) @ CHR ''_'' # chk"
    by (simp add: a1)
  have lc: "length chk = 6" unfolding chk_def by (rule length_checksum)
  have ne: "chk \<noteq> []" using lc by auto
  have ls: "length sub \<le> 3" using assms(1) by (simp add: sub_def length_to_string_255)
  have len: "length a < 2 ^ 32" using assms(3) lc ls by (simp add: a1)
  have st: "stoul sub = Inr THIS_SIDECHAIN"
    using assms(1) by (simp add: sub_def stoul_to_string ULONG_MAX_def)
  have u: "unsigned_int THIS_SIDECHAIN = THIS_SIDECHAIN"
    using assms(1) by (simp add: unsigned_int_def)
  have w: "unsigned_int (length (CHR ''s'' # sub @ CHR ''_'' # strDestIn) + 2 ^ 32 - (length sub + 2))
             = length strDestIn"
    using assms(3) by (simp add: unsigned_int_def)
  have P2: "(CHR ''s'' # sub @ CHR ''_'' # strDestIn) @ ''_'' = P" by (simp add: P_def)
  have "ParseDepositAddress a out0 n0 = Inr (True, strDestIn, THIS_SIDECHAIN)"
    unfolding ParseDepositAddress_split
      [OF a1 to_string_no_underscore [of THIS_SIDECHAIN, folded sub_def] a2
          underscore_not_hex [of 6 "CSHA256 (bytes_of P)", folded chk_def] len]
    unfolding w P2
    using assms(1,2) lc ne by (simp add: st u chk_def [symmetric])
  then show ?thesis by (simp add: a_def)
qed

text \<open>
  The round trip at index 7 and the destination \<^verbatim>\<open>a_b\<close>, which contains an underscore.
\<close>

theorem address_round_trip_witness:
  "ParseDepositAddress (GenerateDepositAddress 7 ''a_b'') [] 0 = Inr (True, ''a_b'', 7)"
  using address_round_trip [of 7 "''a_b''" "[]" 0] by simp

text \<open>
  Claim C10. Parsing is not atomic on failure: on \<^verbatim>\<open>s5_abc_zzzzzz\<close>, whose index
  parses and whose destination is not empty but whose checksum does not match,
  \<^verbatim>\<open>ParseDepositAddress\<close> returns \<^verbatim>\<open>false\<close> and has overwritten both output
  parameters, whatever they held before, with the parsed destination and index.
\<close>

theorem parse_not_atomic:
  "ParseDepositAddress ''s5_abc_zzzzzz'' out0 n0 = Inr (False, ''abc'', 5)"
proof -
  have a1: "''s5_abc_zzzzzz'' = CHR ''s'' # ''5'' @ CHR ''_'' # ''abc_zzzzzz''" by simp
  have a2: "''s5_abc_zzzzzz'' = ''s5_abc'' @ CHR ''_'' # ''zzzzzz''" by simp
  have st: "stoul ''5'' = Inr 5"
    by (simp add: stoul_def isspace_def isdigit_def digits_value_def digit_val_def ULONG_MAX_def)
  have ne: "''zzzzzz'' \<noteq> take 6 (HexStr vch)" for vch
  proof
    assume "''zzzzzz'' = take 6 (HexStr vch)"
    then have "CHR ''z'' \<in> set (take 6 (HexStr vch))" by (metis list.set_intros(1))
    then have "CHR ''z'' \<in> set hexmap" using set_HexStr [of vch] by (auto dest: in_set_takeD)
    then show False by (simp add: hexmap_def)
  qed
  have len: "length ''s5_abc_zzzzzz'' < (2::nat) ^ 32" by simp
  have u1: "CHR ''_'' \<notin> set ''5''" and u2: "CHR ''_'' \<notin> set ''zzzzzz''" by simp_all
  show ?thesis
    unfolding ParseDepositAddress_split [OF a1 u1 a2 u2 len]
    by (simp add: st ne unsigned_int_def)
qed

section \<open>The parser on addresses of any length\<close>

lemma unsigned_int_less: "unsigned_int x < 4294967296"
  by (simp add: unsigned_int_def)

lemma unsigned_int_not_npos: "unsigned_int x \<noteq> npos"
  using unsigned_int_less [of x] by (simp add: npos_def)

text \<open>
  What \<^verbatim>\<open>ParseDepositAddress\<close> computes on any address, of any length: the checks
  in the order of the source, with every \<^verbatim>\<open>substr\<close> resolved.
\<close>

lemma ParseDepositAddress_normal_form:
  "ParseDepositAddress a out0 n0 =
     (if a = [] \<or> hd a \<noteq> CHR ''s'' \<or> length a \<le> delim1 a
          \<or> length a \<le> unsigned_int (delim2 a + 1) \<or> delim1 a = 0
      then Inr (False, out0, n0)
      else case stoul (take (delim1 a) (drop 1 a)) of
        Inl e \<Rightarrow> Inr (False, out0, n0)
      | Inr v \<Rightarrow>
          if unsigned_int v > 255 then Inr (False, out0, unsigned_int v)
          else
            let out = take (unsigned_int (delim2 a + 2 ^ 32 - delim1 a)) (drop (delim1 a) a) in
            if out = [] \<or> unsigned_int (delim2 a + 1) = 0
                \<or> length a - unsigned_int (delim2 a + 1) \<noteq> 6
                \<or> drop (unsigned_int (delim2 a + 1)) a
                     \<noteq> take 6 (HexStr (CSHA256 (bytes_of (take (unsigned_int (delim2 a + 1)) a))))
            then Inr (False, out, unsigned_int v)
            else Inr (True, out, unsigned_int v))"
proof -
  note defs = ParseDepositAddress_def delim1_def [symmetric] delim2_def [symmetric]
  have np: "delim1 a \<noteq> npos" "delim2 a \<noteq> npos"
    by (simp_all add: delim1_def delim2_def unsigned_int_not_npos)
  have h: "length (HexStr (CSHA256 m)) = 64" for m
    by (simp add: length_HexStr length_CSHA256)
  show ?thesis
  proof (cases "a = [] \<or> hd a \<noteq> CHR ''s''")
    case True
    then show ?thesis unfolding defs by auto
  next
    case False
    then have ne: "a \<noteq> []" "hd a = CHR ''s''" by simp_all
    show ?thesis
    proof (cases "length a \<le> delim1 a \<or> length a \<le> unsigned_int (delim2 a + 1)")
      case True
      then show ?thesis unfolding defs using ne np by (auto simp: Let_def)
    next
      case False
      then have g: "\<not> length a \<le> delim1 a" "\<not> length a \<le> unsigned_int (Suc (delim2 a))"
        by simp_all
      have s1: "substr a (Suc 0) k = Inr (take k (drop (Suc 0) a))" for k
        using ne by (cases a) (simp_all add: substr_def)
      have s2: "substr a (delim1 a) k = Inr (take k (drop (delim1 a) a))" for k
        using g by (simp add: substr_def)
      have s3: "substr a 0 k = Inr (take k a)" for k
        by (simp add: substr_def)
      have s4: "substr a (unsigned_int (Suc (delim2 a))) k
                  = Inr (take k (drop (unsigned_int (Suc (delim2 a))) a))" for k
        using g by (simp add: substr_def)
      have e1: "take (delim1 a) (drop (Suc 0) a) = [] \<longleftrightarrow> delim1 a = 0 \<or> length a \<le> Suc 0"
        by auto
      have e2: "take (unsigned_int (Suc (delim2 a))) a = [] \<longleftrightarrow> unsigned_int (Suc (delim2 a)) = 0"
        using ne by auto
      note facts = ne np g s1 s2 s3 s4 h
      show ?thesis
      proof (cases "delim1 a = 0")
        case True
        then show ?thesis unfolding defs by (simp add: facts Let_def)
      next
        case d0: False
        then have l1: "\<not> length a \<le> Suc 0" using g by simp
        show ?thesis
        proof (cases "stoul (take (delim1 a) (drop (Suc 0) a))")
          case (Inl e)
          then show ?thesis unfolding defs by (simp add: facts d0 l1 Let_def)
        next
          case (Inr v)
          show ?thesis
          proof (cases "unsigned_int v > 255")
            case True
            then show ?thesis unfolding defs by (simp add: facts d0 l1 Inr Let_def)
          next
            case False
            then show ?thesis unfolding defs by (simp add: facts d0 l1 e2 Inr Let_def)
          qed
        qed
      qed
    qed
  qed
qed

lemma ParseDepositAddress_total:
  "\<exists>b out n. ParseDepositAddress a out0 n0 = Inr (b, out, n)"
  unfolding ParseDepositAddress_normal_form by (auto simp: Let_def split: sum.splits)

lemma accepted_checksum:
  assumes "\<not> returns_false (ParseDepositAddress a out0 n0)"
  shows "6 \<le> length a \<and>
         drop (length a - 6) a = take 6 (HexStr (CSHA256 (bytes_of (take (length a - 6) a))))"
proof -
  define E where "E = unsigned_int (delim2 a + 1)"
  have acc: "\<not> length a \<le> E \<and> length a - E = 6
          \<and> drop E a = take 6 (HexStr (CSHA256 (bytes_of (take E a))))"
    using assms unfolding ParseDepositAddress_normal_form E_def [symmetric]
    by (auto simp: returns_false_def Let_def split: if_splits sum.splits)
  then have "E = length a - 6" by arith
  with acc show ?thesis by auto
qed

text \<open>
  Claim C5. In a generated deposit address, replacing the character at any of the
  final six positions by any different character (an underscore included) makes
  \<^verbatim>\<open>ParseDepositAddress\<close> return \<^verbatim>\<open>false\<close>.
\<close>

theorem checksum_tamper_detected:
  assumes i: "i < 6"
    and c: "c \<noteq> GenerateDepositAddress N dest ! (length (GenerateDepositAddress N dest) - 6 + i)"
  shows "returns_false (ParseDepositAddress (tamper (GenerateDepositAddress N dest) i c) out0 n0)"
proof (rule ccontr)
  define P where "P = CHR ''s'' # to_string N @ CHR ''_'' # dest @ ''_''"
  define chk where "chk = take 6 (HexStr (CSHA256 (bytes_of P)))"
  define a' where "a' = tamper (GenerateDepositAddress N dest) i c"
  have lc: "length chk = 6" unfolding chk_def by (rule length_checksum)
  have aP: "GenerateDepositAddress N dest = P @ chk"
    by (simp add: GenerateDepositAddress_eq chk_def P_def)
  have pos: "length (P @ chk) - 6 + i = length P + i" using lc by simp
  have a': "a' = P @ chk[i := c]"
    unfolding a'_def tamper_def aP pos by (simp add: list_update_append)
  have ci: "c \<noteq> chk ! i" using c i lc unfolding aP pos by (simp add: nth_append)
  have ne: "chk[i := c] \<noteq> chk" using ci i lc by (metis nth_list_update_eq)
  assume "\<not> returns_false (ParseDepositAddress (tamper (GenerateDepositAddress N dest) i c) out0 n0)"
  then have "\<not> returns_false (ParseDepositAddress a' out0 n0)" by (simp add: a'_def)
  from accepted_checksum [OF this]
  have "drop (length a' - 6) a' = take 6 (HexStr (CSHA256 (bytes_of (take (length a' - 6) a'))))"
    by simp
  moreover have "length a' - 6 = length P" using lc by (simp add: a')
  ultimately have "chk[i := c] = chk" by (simp add: a' chk_def)
  with ne show False by simp
qed


lemma delim1_split:
  assumes "c \<notin> set pre" and "c = CHR ''_''"
  shows "delim1 (pre @ c # rest) = (length pre + 1) mod 4294967296"
proof -
  have "find_first_of (pre @ c # rest) CHR ''_'' = length pre"
    using find_first_of_split [of c pre rest] assms by simp
  moreover have "x mod 18446744073709551616 mod 4294967296 = x mod 4294967296" for x :: nat
    by (rule mod_mod_cancel) simp
  ultimately show ?thesis by (simp add: delim1_def unsigned_int_def size_t_def)
qed

lemma delim2_split:
  assumes "CHR ''_'' \<notin> set q"
  shows "delim2 (p @ CHR ''_'' # q) = length p mod 4294967296"
  using find_last_of_split [of "CHR ''_''" q p] assms by (simp add: delim2_def unsigned_int_def)


lemma to_string_0: "to_string 0 = ''0''"
  by (subst to_string.simps) (simp add: digit_char_def)

text \<open>
  A destination of \<open>2 ^ 32 - 3\<close> characters at sidechain 0: the last underscore of
  the generated address is at position \<open>2 ^ 32\<close>, which \<^verbatim>\<open>delim2\<close> holds as 0. The
  text after position 1 is then taken for the checksum, and it has more than six
  characters.
\<close>

lemma long_destination_rejected:
  assumes len: "length dest = 2 ^ 32 - 3"
  shows "ParseDepositAddress (GenerateDepositAddress 0 dest) out0 n0 = Inr (False, dest, 0)"
proof -
  define chk where "chk = take 6 (HexStr (CSHA256 (bytes_of (''s0_'' @ dest @ ''_''))))"
  define a where "a = GenerateDepositAddress 0 dest"
  have lc: "length chk = 6" unfolding chk_def by (rule length_checksum)
  have nu: "CHR ''_'' \<notin> set chk" by (simp add: chk_def underscore_not_hex)
  have l: "length dest = 4294967293" using len by simp
  have a1: "a = ''s0'' @ CHR ''_'' # (dest @ CHR ''_'' # chk)"
    by (simp add: a_def GenerateDepositAddress_eq to_string_0 chk_def)
  have a2: "a = (''s0_'' @ dest) @ CHR ''_'' # chk" by (simp add: a1)
  have la: "length a = 4294967303" using l lc by (simp add: a1)
  have d1: "delim1 a = 3"
    using delim1_split [of "CHR ''_''" "''s0''" "dest @ CHR ''_'' # chk"] by (simp add: a1)
  have d2: "delim2 a = 0"
    using delim2_split [OF nu, of "''s0_'' @ dest"] l by (simp add: a2)
  have dest_ne: "dest \<noteq> []" using l by auto
  have tk: "take 3 (drop 1 a) = ''0'' @ CHR ''_'' # take 1 dest"
    using dest_ne by (cases dest) (simp_all add: a1)
  have "stoul (''0'' @ CHR ''_'' # take 1 dest) = stoul ''0''"
    by (rule stoul_stop) (simp_all add: underscore_stops)
  moreover have "stoul ''0'' = Inr 0"
    by (simp add: stoul_def isspace_def isdigit_def digits_value_def digit_val_def ULONG_MAX_def)
  ultimately have st: "stoul (take 3 (drop 1 a)) = Inr 0" using tk by simp
  have u: "unsigned_int (0 + 2 ^ 32 - 3) = 4294967293" "unsigned_int (0 + 1) = 1" "unsigned_int 0 = 0"
    by (simp_all add: unsigned_int_def)
  have out: "take 4294967293 (drop 3 a) = dest" using l by (simp add: a1)
  have hd: "a \<noteq> []" "hd a = CHR ''s''" by (simp_all add: a1)
  have "ParseDepositAddress a out0 n0 = Inr (False, dest, 0)"
    unfolding ParseDepositAddress_normal_form d1 d2 st u out
    using dest_ne by (simp add: hd la u)
  then show ?thesis by (simp add: a_def)
qed

text \<open>
  Claim C1. The claim says that for every sidechain index in [0,255] and every
  non-empty destination, parsing the generated address succeeds and returns that
  destination and that index. At index 0 and a destination of \<open>2 ^ 32 - 3\<close> characters
  \<^verbatim>\<open>ParseDepositAddress\<close> returns \<^verbatim>\<open>false\<close>: the positions of the underscores are
  narrowed to \<^verbatim>\<open>unsigned int\<close>. For addresses shorter than \<open>2 ^ 32\<close> characters the
  round trip holds (\<open>address_round_trip\<close>).
\<close>

theorem round_trip_fails_on_long_destination:
  "ParseDepositAddress (GenerateDepositAddress 0 (replicate (2 ^ 32 - 3) CHR ''a'')) [] 0
     = Inr (False, replicate (2 ^ 32 - 3) CHR ''a'', 0)"
  by (rule long_destination_rejected) (rule length_replicate)

section \<open>Properties of the sidechain objects and of the selection\<close>

declare remove_if_loop.simps [simp del]

text \<open>
  The loop of \<^verbatim>\<open>std::remove_if\<close> keeps, before \<^verbatim>\<open>result\<close>, what it had there and
  then the elements from \<^verbatim>\<open>first\<close> on that stay, in their order.
\<close>

lemma remove_if_loop_take:
  "result \<le> first \<Longrightarrow> first \<le> length v \<Longrightarrow>
   remove_if_loop pred v result first = (v', r') \<Longrightarrow>
   take r' v' = take result v @ filter (\<lambda>x. \<not> pred x) (drop first v)"
proof (induction pred v result first arbitrary: v' r' rule: remove_if_loop.induct)
  case (1 pred v result first)
  show ?case
  proof (cases "first < length v")
    case False
    then have "remove_if_loop pred v result first = (v, result)"
      by (subst remove_if_loop.simps) simp
    with "1.prems" have "v' = v" "r' = result" by simp_all
    with False show ?thesis by simp
  next
    case lt: True
    have dr: "drop first v = v ! first # drop (Suc first) v"
      using lt by (simp add: Cons_nth_drop_Suc)
    show ?thesis
    proof (cases "pred (v ! first)")
      case True
      with lt 1 have "take r' v' = take result v @ filter (\<lambda>x. \<not> pred x) (drop (Suc first) v)"
        by (simp add: remove_if_loop.simps [of pred v result first])
      with True show ?thesis by (simp add: dr)
    next
      case False
      let ?v2 = "v[result := v ! first]"
      have eq: "remove_if_loop pred ?v2 (Suc result) (Suc first) = (v', r')"
        using lt False "1.prems" by (simp add: remove_if_loop.simps [of pred v result first])
      have "take r' v' = take (Suc result) ?v2 @ filter (\<lambda>x. \<not> pred x) (drop (Suc first) ?v2)"
        using "1.IH"(1) [OF lt False _ _ eq] lt "1.prems" by simp
      moreover have "take (Suc result) ?v2 = take result v @ [v ! first]"
        using lt "1.prems"(1) by (simp add: take_Suc_conv_app_nth)
      moreover have "drop (Suc first) ?v2 = drop (Suc first) v"
        using "1.prems"(1) by simp
      ultimately show ?thesis using False by (simp add: dr)
    qed
  qed
qed

lemma remove_if_filter:
  assumes "remove_if pred v = (v', r')"
  shows "take r' v' = filter (\<lambda>x. \<not> pred x) v"
proof -
  let ?keep = "\<lambda>x. \<not> pred x"
  let ?first = "find_if pred v"
  have tw: "take ?first v = takeWhile ?keep v"
    by (simp add: find_if_def takeWhile_eq_take [symmetric])
  have ftw: "filter ?keep (takeWhile ?keep v) = takeWhile ?keep v"
    by (rule filter_True) (auto dest: set_takeWhileD)
  have le: "?first \<le> length v" by (simp add: find_if_def length_takeWhile_le)
  show ?thesis
  proof (cases "?first = length v")
    case True
    then have "takeWhile ?keep v = v" using tw by simp
    then have "filter ?keep v = v" using ftw by simp
    with True assms show ?thesis by (auto simp: remove_if_def Let_def)
  next
    case False
    then have lt: "?first < length v" using le by simp
    have bad: "pred (v ! ?first)"
      using nth_length_takeWhile [of ?keep v] lt by (simp add: find_if_def)
    have loop: "remove_if_loop pred v ?first (Suc ?first) = (v', r')"
      using assms False by (simp add: remove_if_def Let_def)
    have "take r' v' = take ?first v @ filter ?keep (drop (Suc ?first) v)"
      using remove_if_loop_take [OF _ _ loop] lt by simp
    moreover have "v = take ?first v @ v ! ?first # drop (Suc ?first) v"
      using lt by (simp add: id_take_nth_drop [symmetric])
    then have "filter ?keep v = filter ?keep (take ?first v) @ filter ?keep (drop (Suc ?first) v)"
      using bad by (metis filter.simps(2) filter_append)
    ultimately show ?thesis using tw ftw by simp
  qed
qed

text \<open>
  Claim C8. \<^verbatim>\<open>SelectUnspentWT\<close> leaves in the caller's vector exactly the elements
  whose status is \<^verbatim>\<open>WT_UNSPENT\<close>, in their original relative order, and removes all
  others: the new contents are the \<open>filter\<close> of the old.
\<close>

theorem SelectUnspentWT_filter:
  "SelectUnspentWT h vWT = filter (\<lambda>wt. status wt = WT_UNSPENT h) vWT"
  using remove_if_filter [of "\<lambda>wt. status wt \<noteq> WT_UNSPENT h" vWT]
  by (cases "remove_if (\<lambda>wt. status wt \<noteq> WT_UNSPENT h) vWT")
     (simp add: SelectUnspentWT_def erase_to_end_def)

text \<open>
  Claim C3. On the empty byte vector, and on a vector whose first byte is none of the
  three discriminant constants, \<^verbatim>\<open>ParseSidechainObj\<close> returns \<^verbatim>\<open>NULL\<close>: no object,
  and no exception.
\<close>

theorem unknown_tag_decodes_to_null:
  assumes "vch = [] \<or> hd vch \<notin> {DB_SIDECHAIN_WT_OP h, DB_SIDECHAIN_WTPRIME_OP h, DB_SIDECHAIN_DEPOSIT_OP h}"
  shows "ParseSidechainObj h vch = Inr None"
  using assms by (auto simp: ParseSidechainObj_def Let_def)

text \<open>
  Claim C4. For an object of any of the three variants, with any fields, the output of
  \<^verbatim>\<open>GetScript\<close> is the five header bytes, \<^verbatim>\<open>OP_RETURN\<close> and then
  \<^verbatim>\<open>0xAC 0xDC 0xF6 0x6F\<close>, followed from byte 5 on by the serialization of the
  object. The three discriminant constants are pairwise different.
\<close>

theorem script_header:
  assumes "constructed h this"
    and "distinct [DB_SIDECHAIN_WT_OP h, DB_SIDECHAIN_WTPRIME_OP h, DB_SIDECHAIN_DEPOSIT_OP h]"
  shows "GetScript h this = Some ([OP_RETURN h, 0xAC, 0xDC, 0xF6, 0x6F] @ Serialize h this)"
  using assms by (cases this) (auto simp: GetScript_def)

text \<open>
  Claim C9. For an object whose \<^verbatim>\<open>sidechainop\<close> is none of the three discriminant
  constants, \<^verbatim>\<open>GetHash\<close> returns the default, all-zero digest, and does not fail.
\<close>

theorem unknown_tag_hash_is_zero:
  assumes "op_of this \<notin> {DB_SIDECHAIN_WT_OP h, DB_SIDECHAIN_WTPRIME_OP h, DB_SIDECHAIN_DEPOSIT_OP h}"
  shows "GetHash h this = Some 0"
  using assms by (simp add: GetHash_def uint256_default_def)

theorem unknown_tag_decodes_to_null_witness:
  "ParseSidechainObj example_h [] = Inr None
     \<and> ParseSidechainObj example_h [0x58, 0x01, 0x02] = Inr None"
  using unknown_tag_decodes_to_null [of "[]" example_h]
    unknown_tag_decodes_to_null [of "[0x58, 0x01, 0x02]" example_h]
  by (simp add: example_h_def example_decls_def with_spec_serializers_def)

theorem script_header_witness:
  "GetScript example_h (WT example_WT)
     = Some ([0x6a, 0xAC, 0xDC, 0xF6, 0x6F] @ spec_Serialize_WT example_WT)"
  using script_header [of example_h "WT example_WT"]
  by (simp add: example_h_def example_decls_def with_spec_serializers_def example_WT_def)

theorem unknown_tag_hash_is_zero_witness:
  "GetHash example_h (Obj \<lparr>sidechainop = 0x58\<rparr>) = Some 0
     \<and> GetHash example_h (WT (example_WT\<lparr>sidechainop := 0x58\<rparr>)) = Some 0"
  using unknown_tag_hash_is_zero [of "Obj \<lparr>sidechainop = 0x58\<rparr>" example_h]
    unknown_tag_hash_is_zero [of "WT (example_WT\<lparr>sidechainop := 0x58\<rparr>)" example_h]
  by (simp add: example_h_def example_decls_def with_spec_serializers_def example_WT_def)


text \<open>
  The statuses \<^verbatim>\<open>U\<close>, \<^verbatim>\<open>S\<close>, \<^verbatim>\<open>A\<close>, \<^verbatim>\<open>U\<close>: the first and the fourth element stay,
  in this order.
\<close>

theorem SelectUnspentWT_filter_witness:
  "map nSidechain
     (SelectUnspentWT example_h
        [example_WT\<lparr>nSidechain := 1\<rparr>, example_WT\<lparr>nSidechain := 2, status := 0x53\<rparr>,
         example_WT\<lparr>nSidechain := 3, status := 0x41\<rparr>, example_WT\<lparr>nSidechain := 4\<rparr>])
     = [1, 4]"
  by (simp add: SelectUnspentWT_filter example_h_def example_decls_def with_spec_serializers_def
      example_WT_def)

section \<open>Properties of the serialization\<close>

lemma le_value_le_bytes: "n < 256 ^ k \<Longrightarrow> le_value (le_bytes k n) = n"
proof (induction k arbitrary: n)
  case 0
  then show ?case by simp
next
  case (Suc k)
  then have "n div 256 < 256 ^ k" by (simp add: less_mult_imp_div_less mult.commute)
  with Suc.IH have "le_value (le_bytes k (n div 256)) = n div 256" by simp
  moreover have "unat (of_nat (n mod 256) :: byte) = n mod 256"
    by (simp add: unat_of_nat)
  ultimately show ?case by simp
qed

lemma length_le_bytes: "length (le_bytes k n) = k"
  by (induction k arbitrary: n) simp_all

lemma read_bytes_append: "length bs = k \<Longrightarrow> read_bytes k (bs @ rest) = Inr (bs, rest)"
  by (simp add: read_bytes_def)

lemma bind_reader_step: "r ds = Inr (x, ds') \<Longrightarrow> bind_reader r f ds = f x ds'"
  by (simp add: bind_reader_def)

lemma unser_ser_word:
  fixes w :: "'a::len word"
  assumes "LENGTH('a) \<le> 8 * k"
  shows "unser_word k (ser_word k w @ rest) = Inr (w, rest)"
proof -
  have "unat w < 2 ^ LENGTH('a)" by (rule unsigned_less)
  also have "(2::nat) ^ LENGTH('a) \<le> 2 ^ (8 * k)" using assms by (rule power_increasing) simp
  also have "(2::nat) ^ (8 * k) = 256 ^ k" by (simp add: power_mult)
  finally have "le_value (le_bytes k (unat w)) = unat w" by (rule le_value_le_bytes)
  then show ?thesis
    by (simp add: unser_word_def ser_word_def bind_reader_def read_bytes_append length_le_bytes
        return_reader_def)
qed

lemma read_le_bytes:
  assumes "n < 256 ^ k"
  shows "bind_reader (read_bytes k) (\<lambda>bs. return_reader (le_value bs)) (le_bytes k n @ rest)
           = Inr (n, rest)"
  using assms
  by (simp add: bind_reader_def read_bytes_append length_le_bytes return_reader_def
      le_value_le_bytes)

lemma read_marker: "read_bytes (Suc 0) (b # ds) = Inr ([b], ds)"
  by (simp add: read_bytes_def)

lemma bind_marker: "bind_reader (read_bytes (Suc 0)) f (b # ds) = f [b] ds"
  by (simp add: bind_reader_def read_marker)

lemma ReadCompactSize_Write:
  assumes "n < 2 ^ 64"
  shows "ReadCompactSize (WriteCompactSize n @ rest) = Inr (n, rest)"
proof -
  consider "n < 253" | "253 \<le> n" "n \<le> 0xFFFF" | "0xFFFF < n" "n \<le> 0xFFFFFFFF" | "0xFFFFFFFF < n"
    by linarith
  then show ?thesis
  proof cases
    case 1
    then have "unat (of_nat n :: byte) = n" by (simp add: unat_of_nat)
    with 1 show ?thesis
      by (simp add: ReadCompactSize_def WriteCompactSize_def bind_marker return_reader_def)
  next
    case 2
    then have "n < 256 ^ 2" by simp
    from read_le_bytes [OF this, of rest] 2 show ?thesis
      by (simp add: ReadCompactSize_def WriteCompactSize_def bind_marker)
  next
    case 3
    then have "n < 256 ^ 4" by simp
    from read_le_bytes [OF this, of rest] 3 show ?thesis
      by (simp add: ReadCompactSize_def WriteCompactSize_def bind_marker)
  next
    case 4
    have "n < 256 ^ 8" using assms by simp
    from read_le_bytes [OF this, of rest] 4 show ?thesis
      by (simp add: ReadCompactSize_def WriteCompactSize_def bind_marker)
  qed
qed

lemma char_of_byte: "char_of (unat (of_char c :: byte)) = c"
proof -
  have "(of_char c :: byte) = of_nat (of_char c)" by (simp add: of_nat_of_char)
  then have "unat (of_char c :: byte) = (of_char c :: nat) mod 256"
    by (simp add: unat_of_nat)
  then show ?thesis by simp
qed

lemma chars_of_bytes: "map (\<lambda>b. char_of (unat b)) (bytes_of s) = s"
  by (induction s) (simp_all add: bytes_of_def char_of_byte)

lemma unser_ser_string:
  assumes "length s < 2 ^ 64"
  shows "unser_string (ser_string s @ rest) = Inr (s, rest)"
proof -
  have "length (bytes_of s) = length s" by (simp add: bytes_of_def)
  then have "read_bytes (length s) (bytes_of s @ rest) = Inr (bytes_of s, rest)"
    by (rule read_bytes_append)
  then show ?thesis
    using ReadCompactSize_Write [OF assms, of "bytes_of s @ rest"]
    by (simp add: unser_string_def ser_string_def bind_reader_def return_reader_def chars_of_bytes)
qed

lemma ser_word_1: "ser_word (Suc 0) (b::byte) = [b]"
proof -
  have "unat b < 256" using unsigned_less [of b] by simp
  then have "unat b mod 256 = unat b" by simp
  then show ?thesis by (simp add: ser_word_def)
qed

lemma bind_word:
  fixes w :: "'a::len word"
  assumes "LENGTH('a) \<le> 8 * k"
  shows "bind_reader (unser_word k) f (ser_word k w @ rest) = f w rest"
  by (rule bind_reader_step) (rule unser_ser_word [OF assms])

lemma bind_string:
  assumes "length s < 2 ^ 64"
  shows "bind_reader unser_string f (ser_string s @ rest) = f s rest"
  by (rule bind_reader_step) (rule unser_ser_string [OF assms])

lemma bind_tx:
  assumes "\<And>t rest. tx_unser (tx_ser t @ rest) = Inr (t, rest)"
  shows "bind_reader tx_unser f (tx_ser t @ rest) = f t rest"
  by (rule bind_reader_step) (rule assms)

lemma spec_WT_round_trip:
  assumes "length (strDestination x) < 2 ^ 64"
  shows "spec_Unserialize_WT (spec_Serialize_WT x @ rest) = Inr x"
  unfolding spec_Unserialize_WT_def spec_Serialize_WT_def append_assoc
  by (simp add: bind_word bind_string [OF assms] return_reader_def)

lemma spec_WTPrime_round_trip:
  assumes "\<And>t rest. tx_unser (tx_ser t @ rest) = Inr (t, rest)"
  shows "spec_Unserialize_WTPrime tx_unser (spec_Serialize_WTPrime tx_ser x @ rest) = Inr x"
  unfolding spec_Unserialize_WTPrime_def spec_Serialize_WTPrime_def append_assoc
  by (simp add: bind_word bind_tx [of tx_unser tx_ser, OF assms] return_reader_def)

lemma spec_Deposit_round_trip:
  assumes "\<And>t rest. tx_unser (tx_ser t @ rest) = Inr (t, rest)"
    and "length (strDest x) < 2 ^ 64"
  shows "spec_Unserialize_Deposit tx_unser (spec_Serialize_Deposit tx_ser x @ rest) = Inr x"
  unfolding spec_Unserialize_Deposit_def spec_Serialize_Deposit_def append_assoc
  by (simp add: bind_word bind_string [OF assms(2)] bind_tx [of tx_unser tx_ser, OF assms(1)]
      return_reader_def)

lemma hd_spec_Serialize:
  "spec_Serialize_WT x = sidechainop x # tl (spec_Serialize_WT x)"
  "spec_Serialize_WTPrime tx_ser y = sidechainop y # tl (spec_Serialize_WTPrime tx_ser y)"
  "spec_Serialize_Deposit tx_ser z = sidechainop z # tl (spec_Serialize_Deposit tx_ser z)"
  by (simp_all add: spec_Serialize_WT_def spec_Serialize_WTPrime_def spec_Serialize_Deposit_def
      ser_word_1)

text \<open>
  Claim C2. For an object of any of the three variants, as its constructor tags it and
  with strings that a compact size can hold, \<^verbatim>\<open>ParseSidechainObj\<close> on the output of
  \<^verbatim>\<open>GetScript\<close> without its first five bytes returns an object equal to the original
  in every field. The \<^verbatim>\<open>Serialize\<close> and \<^verbatim>\<open>Unserialize\<close> methods are those modelled
  from the spec, over a transaction codec that reads back what it wrote; the three
  discriminant constants are pairwise different.
\<close>

theorem framing_round_trip:
  assumes con: "constructed h this" and val: "valid_fields this"
    and tags: "distinct [DB_SIDECHAIN_WT_OP h, DB_SIDECHAIN_WTPRIME_OP h, DB_SIDECHAIN_DEPOSIT_OP h]"
    and tx: "\<And>t rest. tx_unser (tx_ser t @ rest) = Inr (t, rest)"
  shows "\<exists>script. GetScript (with_spec_serializers tx_ser tx_unser h) this = Some script
           \<and> ParseSidechainObj (with_spec_serializers tx_ser tx_unser h) (drop 5 script)
                = Inr (Some this)"
proof (cases this)
  case (Obj x)
  with con show ?thesis by simp
next
  case (WT x)
  have rt: "spec_Unserialize_WT (spec_Serialize_WT x) = Inr x"
    using spec_WT_round_trip [of x "[]"] val WT by simp
  have ne: "spec_Serialize_WT x \<noteq> []" "hd (spec_Serialize_WT x) = sidechainop x"
    using hd_spec_Serialize(1) [of x] by (metis list.discI, metis list.sel(1))
  show ?thesis
    using con tags WT ne
    by (auto simp: GetScript_def ParseSidechainObj_def with_spec_serializers_def rt)
next
  case (WTPrime x)
  have rt: "spec_Unserialize_WTPrime tx_unser (spec_Serialize_WTPrime tx_ser x) = Inr x"
    using spec_WTPrime_round_trip [of tx_unser tx_ser x "[]", OF tx] by simp
  have ne: "spec_Serialize_WTPrime tx_ser x \<noteq> []"
      "hd (spec_Serialize_WTPrime tx_ser x) = sidechainop x"
    using hd_spec_Serialize(2) [of tx_ser x] by (metis list.discI, metis list.sel(1))
  show ?thesis
    using con tags WTPrime ne
    by (auto simp: GetScript_def ParseSidechainObj_def with_spec_serializers_def rt)
next
  case (Deposit x)
  have rt: "spec_Unserialize_Deposit tx_unser (spec_Serialize_Deposit tx_ser x) = Inr x"
    using spec_Deposit_round_trip [of tx_unser tx_ser x "[]", OF tx] val Deposit by simp
  have ne: "spec_Serialize_Deposit tx_ser x \<noteq> []"
      "hd (spec_Serialize_Deposit tx_ser x) = sidechainop x"
    using hd_spec_Serialize(3) [of tx_ser x] by (metis list.discI, metis list.sel(1))
  show ?thesis
    using con tags Deposit ne
    by (auto simp: GetScript_def ParseSidechainObj_def with_spec_serializers_def rt)
qed

theorem framing_round_trip_witness:
  "(\<exists>script. GetScript example_h (WT example_WT) = Some script
       \<and> ParseSidechainObj example_h (drop 5 script) = Inr (Some (WT example_WT)))
   \<and> (\<exists>script. GetScript example_h (Deposit example_Deposit) = Some script
       \<and> ParseSidechainObj example_h (drop 5 script) = Inr (Some (Deposit example_Deposit)))"
  using framing_round_trip [of example_decls "WT example_WT" "return_reader ()" "\<lambda>t. []"]
    framing_round_trip [of example_decls "Deposit example_Deposit" "return_reader ()" "\<lambda>t. []"]
  by (simp add: example_h_def example_decls_def example_WT_def example_Deposit_def
      return_reader_def)

section \<open>Concrete addresses\<close>

lemma generate_example: "GenerateDepositAddress 7 ''abc'' = ''s7_abc_132de8''"
  by code_simp

lemma tamper_example: "tamper ''s7_abc_132de8'' 2 CHR ''z'' = ''s7_abc_13zde8''"
  by (simp add: tamper_def numeral_eq_Suc)

text \<open>
  Claim C5 at the address generated for sidechain 7 and destination \<^verbatim>\<open>abc\<close>, with
  the third character of its checksum replaced by \<^verbatim>\<open>z\<close>.
\<close>

theorem checksum_tamper_detected_witness:
  "returns_false (ParseDepositAddress ''s7_abc_13zde8'' [] 0)"
  using checksum_tamper_detected [of 2 "CHR ''z''" 7 "''abc''" "[]" 0]
  by (simp add: generate_example tamper_example)

lemma checksum_example:
  "take 6 (HexStr (CSHA256 (bytes_of ''s4294967296_a_''))) = ''ae27d2''"
  by code_simp

lemma stoul_example: "stoul ''4294967296'' = Inr 4294967296"
  by (simp add: stoul_def isspace_def isdigit_def digits_value_def digit_val_def ULONG_MAX_def)

text \<open>
  Claim C7. The claim says that an address whose sidechain index exceeds 255 is
  rejected. The index text \<^verbatim>\<open>4294967296\<close> is \<open>2 ^ 32\<close>: \<^verbatim>\<open>std::stoul\<close> returns it
  as an \<^verbatim>\<open>unsigned long\<close>, the assignment to the \<^verbatim>\<open>unsigned int\<close>
  \<^verbatim>\<open>nSidechainOut\<close> narrows it to 0, and the range check that follows sees 0.
  With its matching checksum the address is accepted, as sidechain 0.
\<close>

theorem index_narrowing_accepts:
  "ParseDepositAddress ''s4294967296_a_ae27d2'' out0 n0 = Inr (True, ''a'', 0)"
proof -
  have a1: "''s4294967296_a_ae27d2'' = CHR ''s'' # ''4294967296'' @ CHR ''_'' # ''a_ae27d2''" by simp
  have a2: "''s4294967296_a_ae27d2'' = ''s4294967296_a'' @ CHR ''_'' # ''ae27d2''" by simp
  have len: "length ''s4294967296_a_ae27d2'' < (2::nat) ^ 32" by simp
  have u1: "CHR ''_'' \<notin> set ''4294967296''" and u2: "CHR ''_'' \<notin> set ''ae27d2''" by simp_all
  have c: "take 6 (HexStr (CSHA256 (bytes_of (''s4294967296_a'' @ ''_'')))) = ''ae27d2''"
    using checksum_example by simp
  show ?thesis
    unfolding ParseDepositAddress_split [OF a1 u1 a2 u2 len] c
    by (simp add: stoul_example unsigned_int_def)
qed

text \<open>
  The other rejections of claim C7 hold: the empty string, a string that does not
  start with \<^verbatim>\<open>s\<close>, a string with no underscore, and an index whose value after
  the narrowing exceeds 255.
\<close>

lemma parse_rejects_empty: "ParseDepositAddress [] out0 n0 = Inr (False, out0, n0)"
  by (simp add: ParseDepositAddress_def)

lemma parse_rejects_wrong_prefix:
  "hd a \<noteq> CHR ''s'' \<Longrightarrow> ParseDepositAddress a out0 n0 = Inr (False, out0, n0)"
  by (simp add: ParseDepositAddress_def)

lemma parse_rejects_no_underscore:
  assumes "CHR ''_'' \<notin> set a"
  shows "ParseDepositAddress a out0 n0 = Inr (False, out0, n0)"
proof (cases "a = [] \<or> hd a \<noteq> CHR ''s''")
  case True
  then show ?thesis by (auto simp: ParseDepositAddress_def)
next
  case False
  then have ne: "a \<noteq> []" "hd a = CHR ''s''" by simp_all
  have d1: "unsigned_int (size_t (npos + 1)) = 0"
    by (simp add: unsigned_int_def size_t_def npos_def)
  have d2: "unsigned_int npos = 4294967295"
    by (simp add: unsigned_int_def npos_def)
  have d3: "unsigned_int (4294967295 + 1) = 0" "(4294967295::nat) \<noteq> npos" "0 \<noteq> npos"
    by (simp_all add: unsigned_int_def npos_def)
  have s: "substr a (Suc 0) 0 = Inr []" using ne by (cases a) (simp_all add: substr_def)
  show ?thesis
    unfolding ParseDepositAddress_def
      find_first_of_npos [OF assms] find_last_of_npos [OF assms] d1 d2 Let_def
    using ne by (simp add: d3 s)
qed

lemma parse_rejects_large_index:
  assumes a: "a = CHR ''s'' # sub @ CHR ''_'' # rest" and sub: "CHR ''_'' \<notin> set sub"
    and v: "stoul sub = Inr v" "unsigned_int v > 255" and len: "length a < 2 ^ 32"
  shows "returns_false (ParseDepositAddress a out0 n0)"
proof -
  have "CHR ''_'' \<in> set a" by (simp add: a)
  then obtain p chk where p: "a = p @ CHR ''_'' # chk" and chk: "CHR ''_'' \<notin> set chk"
    by (auto dest: split_list_last)
  show ?thesis
    unfolding ParseDepositAddress_split [OF a sub p chk len]
    by (simp add: v returns_false_def)
qed



end
